theory Spec2Isabelle
  imports Main "HOL-Library.AList" "HOL-Library.Sublist"
begin

section \<open>Data model\<close>

text \<open>
  The bridge forwards Telegram messages to Discord channels. The model follows
  \<^verbatim>\<open>src/bridge/core.py\<close> (class \<^verbatim>\<open>Bridge\<close>) and \<^verbatim>\<open>src/discord_handler.py\<close>.
  Identifiers of channels and messages are Python integers.
\<close>

type_synonym channel_id = int
type_synonym message_id = int

text \<open>
  Exceptions are values. The first three are \<^verbatim>\<open>discord.NotFound\<close>, \<^verbatim>\<open>discord.Forbidden\<close> and
  a \<^verbatim>\<open>discord.HTTPException\<close> that is neither; \<^verbatim>\<open>OtherError\<close> stands for any other subclass of
  \<^verbatim>\<open>Exception\<close> a collaborator may raise (transport errors, errors of the Telegram client).
\<close>

datatype error =
    NotFound
  | Forbidden
  | HTTPException
  | UnboundLocalError
  | AttributeError
  | IndexError
  | TypeError
  | OtherError

text \<open>\<^verbatim>\<open>except discord.HTTPException\<close> also catches its subclasses NotFound and Forbidden.\<close>

fun is_http_exception :: "error \<Rightarrow> bool" where
  "is_http_exception NotFound = True"
| "is_http_exception Forbidden = True"
| "is_http_exception HTTPException = True"
| "is_http_exception _ = False"

text \<open>A tag rule of the configuration: \<^verbatim>\<open>tag["name"]\<close> and the optional key
  \<^verbatim>\<open>"override_mention_everyone"\<close>.\<close>

record tag_rule =
  tag_name :: string
  override_mention_everyone :: "bool option"

text \<open>\<^verbatim>\<open>ForwarderConfig\<close>: one configured route. \<^verbatim>\<open>mention_override\<close> is a dict from tag to
  role names, kept as an association list; an empty list is a falsy dict.\<close>

record ForwarderConfig =
  forwarder_name :: string
  tg_channel_id :: channel_id
  discord_channel_id :: channel_id
  forward_everything :: bool
  mention_everyone :: bool
  forward_hashtags :: "tag_rule list"
  excluded_hashtags :: "tag_rule list"
  mention_override :: "(string \<times> string list) list"

record Config =
  telegram_forwarders :: "ForwarderConfig list"
  recoverer_delay :: int
  healthcheck_interval :: int

text \<open>A Telegram message as the handlers read it: \<^verbatim>\<open>message.id\<close>,
  \<^verbatim>\<open>message.peer_id.channel_id\<close>, \<^verbatim>\<open>message.message\<close>, \<^verbatim>\<open>message.reply_to_msg_id\<close> and
  whether \<^verbatim>\<open>message.media\<close> is set.\<close>

record message =
  msg_id :: message_id
  peer_channel_id :: channel_id
  message_text :: string
  reply_to_msg_id :: "message_id option"
  media :: bool

record role =
  role_name :: string
  role_mention :: string

text \<open>The object \<^verbatim>\<open>discord_client.get_channel\<close> returns: its id and \<^verbatim>\<open>channel.guild.roles\<close>.\<close>

record channel =
  ch_id :: channel_id
  guild_roles :: "role list"

subsection \<open>The message history store\<close>

text \<open>
  \<^verbatim>\<open>MessageHistoryHandler\<close> (module \<^verbatim>\<open>bridge.history\<close>) is used by the core through five
  methods. The mappings are an association list keyed by (forwarder name, Telegram
  message id); the value is the Discord message id the caller hands over.
\<close>

record history =
  mappings :: "((string \<times> message_id) \<times> message_id) list"
  missed :: "(string \<times> message_id \<times> channel_id) list"

text \<open>Modelled from the spec: \<^verbatim>\<open>MessageHistoryHandler.get_discord_message_id\<close>, the
  \<^verbatim>\<open>lookup(route, source_id)\<close> of the Mapping Store; absent is \<^verbatim>\<open>None\<close>.\<close>

definition get_discord_message_id :: "history \<Rightarrow> string \<Rightarrow> message_id \<Rightarrow> message_id option" where
  "get_discord_message_id h forwarder tg_message_id = map_of (mappings h) (forwarder, tg_message_id)"

text \<open>Modelled from the spec: \<^verbatim>\<open>MessageHistoryHandler.save_mapping_data\<close>, the
  \<^verbatim>\<open>record(route, source_id, ...)\<close> of the Mapping Store; a second call for the same key
  overwrites.\<close>

definition save_mapping_data :: "history \<Rightarrow> string \<Rightarrow> message_id \<Rightarrow> message_id \<Rightarrow> history" where
  "save_mapping_data h forwarder tg_message_id discord_message_id =
     h\<lparr>mappings := AList.update (forwarder, tg_message_id) discord_message_id (mappings h)\<rparr>"

text \<open>Modelled from the spec: \<^verbatim>\<open>MessageHistoryHandler.save_missed_message\<close>, which writes a
  Missed-Forward Record (route name, source message id, destination channel id).\<close>

definition save_missed_message :: "history \<Rightarrow> string \<Rightarrow> message_id \<Rightarrow> channel_id \<Rightarrow> history" where
  "save_missed_message h forwarder tg_message_id discord_channel =
     h\<lparr>missed := missed h @ [(forwarder, tg_message_id, discord_channel)]\<rparr>"

text \<open>Modelled from the spec: the Route Cursor \<^verbatim>\<open>cursor(route)\<close> of the Mapping Store, the
  highest source message id mapped under the route (read only for a route that has a
  mapping).\<close>

definition route_cursor :: "history \<Rightarrow> string \<Rightarrow> message_id" where
  "route_cursor h forwarder =
     Max (set (map (\<lambda>((n, i), d). i) (filter (\<lambda>((n, i), d). n = forwarder) (mappings h))))"

text \<open>Modelled from the spec: \<^verbatim>\<open>MessageHistoryHandler.get_last_messages_for_all_forwarders\<close>,
  the cursor of every route that has a mapping. Each entry is (\<^verbatim>\<open>forwarder_name\<close>,
  \<^verbatim>\<open>telegram_id\<close>).\<close>

definition get_last_messages_for_all_forwarders :: "history \<Rightarrow> (string \<times> message_id) list" where
  "get_last_messages_for_all_forwarders h =
     map (\<lambda>n. (n, route_cursor h n)) (remdups (map (\<lambda>((n, i), d). n) (mappings h)))"

text \<open>
  The collaborators whose code is not part of the bridge core are parameters: the
  Telegram-side helpers (\<^verbatim>\<open>get_message_forward_hashtags\<close>, \<^verbatim>\<open>process_message_text\<close>,
  \<^verbatim>\<open>handle_message_media\<close>), \<^verbatim>\<open>split_message\<close>, and the Discord client. The Discord side
  has a state of its own, of type \<open>'d\<close>; an operation that writes returns the new state
  with its result, and every operation may raise. A Discord message object is
  represented by its id.

  Two more functions are parameters. \<open>str_lower\<close> is Python's \<^verbatim>\<open>str.lower\<close>, which folds
  every cased letter of Unicode; its table is not written out here, and nothing is
  assumed of it. \<open>utils_get_discord_message_id\<close> is \<^verbatim>\<open>get_discord_message_id\<close> of the
  module \<^verbatim>\<open>utils\<close> that \<^verbatim>\<open>discord_handler.py\<close> imports: it reads the history store with
  the replied-to id (or \<^verbatim>\<open>None\<close>) as its only argument.
\<close>

record 'd client =
  get_message_forward_hashtags :: "message \<Rightarrow> string list"
  process_message_text :: "message \<Rightarrow> ForwarderConfig \<Rightarrow> bool \<Rightarrow> string list \<Rightarrow> string"
  split_message :: "string \<Rightarrow> string list"
  handle_message_media ::
    "'d \<Rightarrow> message \<Rightarrow> channel \<Rightarrow> string \<Rightarrow> message_id option \<Rightarrow> (error + message_id list) \<times> 'd"
  built_in_roles :: "string list"
  get_channel :: "channel_id \<Rightarrow> channel option"
  send :: "'d \<Rightarrow> channel \<Rightarrow> string \<Rightarrow> string option \<Rightarrow> message_id option \<Rightarrow> (error + message_id) \<times> 'd"
  fetch_message :: "'d \<Rightarrow> channel \<Rightarrow> message_id \<Rightarrow> error + message_id option"
  edit_message :: "'d \<Rightarrow> channel \<Rightarrow> message_id \<Rightarrow> string \<Rightarrow> error option \<times> 'd"
  delete_message :: "'d \<Rightarrow> channel \<Rightarrow> message_id \<Rightarrow> error option \<times> 'd"
  channel_history :: "'d \<Rightarrow> channel \<Rightarrow> message_id \<Rightarrow> error + message_id list"
  str_lower :: "string \<Rightarrow> string"
  utils_get_discord_message_id :: "history \<Rightarrow> message_id option \<Rightarrow> message_id option"

text \<open>
  What the bridge does to the outside, in order: the calls on the Discord client and the
  collaborators that send, the sleeps, and the log lines the claims refer to.
\<close>

datatype effect =
    Send channel_id string "string option" "message_id option"
  | Media channel_id message_id string "message_id option"
  | Edit channel_id message_id string
  | Delete channel_id message_id
  | Sleep int
  | Log_queueing message_id
  | Log_forwarding_recovered message_id
  | Log_failed_fetch error

text \<open>The state the handlers work on: the Discord side, the history store, and the
  effects so far.\<close>

record 'd world =
  dest :: 'd
  history_manager :: history
  trace :: "effect list"

text \<open>The result of a piece of code: it returns a value, or it raises; the state is the
  one reached in both cases.\<close>

datatype ('a, 's) outcome = Return 'a 's | Raise error 's

fun state_of :: "('a, 's) outcome \<Rightarrow> 's" where
  "state_of (Return a s) = s"
| "state_of (Raise e s) = s"

section \<open>Discord handler\<close>

text \<open>\<^verbatim>\<open>is_builtin_mention\<close> and \<^verbatim>\<open>get_mention_roles\<close> of \<^verbatim>\<open>discord_handler.py\<close>. Their first
  argument \<open>lower\<close> is \<^verbatim>\<open>str.lower\<close>. The source collects the mentions in a set and returns
  it as a list; the model keeps the order of first insertion.\<close>

definition is_builtin_mention :: "(string \<Rightarrow> string) \<Rightarrow> string \<Rightarrow> string list \<Rightarrow> bool" where
  "is_builtin_mention lower name discord_built_in_roles = (lower name \<in> set discord_built_in_roles)"

fun role_mentions ::
  "(string \<Rightarrow> string) \<Rightarrow> string list \<Rightarrow> string list \<Rightarrow> role list \<Rightarrow> string list" where
  "role_mentions lower [] discord_built_in_roles server_roles = []"
| "role_mentions lower (name # names) discord_built_in_roles server_roles =
     (if is_builtin_mention lower name discord_built_in_roles then [''@'' @ name]
      else (case find (\<lambda>r. role_name r = name) server_roles of
              None \<Rightarrow> []
            | Some r \<Rightarrow> [role_mention r]))
     @ role_mentions lower names discord_built_in_roles server_roles"

definition get_mention_roles ::
  "(string \<Rightarrow> string) \<Rightarrow> string list \<Rightarrow> (string \<times> string list) list \<Rightarrow> string list
     \<Rightarrow> role list \<Rightarrow> string list" where
  "get_mention_roles lower message_forward_hashtags override discord_built_in_roles server_roles =
     remdups (concat (map (\<lambda>tag.
        (case map_of override (lower tag) of
           None \<Rightarrow> []
         | Some names \<Rightarrow> role_mentions lower names discord_built_in_roles server_roles))
        message_forward_hashtags))"

text \<open>One call of \<^verbatim>\<open>discord_channel.send\<close>: the call is an effect whether or not it
  succeeds.\<close>

definition do_send ::
  "'d client \<Rightarrow> channel \<Rightarrow> string \<Rightarrow> string option \<Rightarrow> message_id option \<Rightarrow> 'd world
     \<Rightarrow> (message_id, 'd world) outcome" where
  "do_send E discord_channel part file reference w =
     (let w1 = w\<lparr>trace := trace w @ [Send (ch_id discord_channel) part file reference]\<rparr> in
      case send E (dest w) discord_channel part file reference of
        (Inl e, d') \<Rightarrow> Raise e (w1\<lparr>dest := d'\<rparr>)
      | (Inr sent_message, d') \<Rightarrow> Return sent_message (w1\<lparr>dest := d'\<rparr>))"

text \<open>The loop \<^verbatim>\<open>for part in message_parts\<close> of \<^verbatim>\<open>forward_to_discord\<close>: nothing catches
  what \<^verbatim>\<open>send\<close> raises.\<close>

fun send_parts ::
  "'d client \<Rightarrow> channel \<Rightarrow> message_id option \<Rightarrow> string list \<Rightarrow> message_id list \<Rightarrow> 'd world
     \<Rightarrow> (message_id list, 'd world) outcome" where
  "send_parts E discord_channel reference [] sent_messages w = Return sent_messages w"
| "send_parts E discord_channel reference (part # parts) sent_messages w =
     (case do_send E discord_channel part None reference w of
        Raise e w' \<Rightarrow> Raise e w'
      | Return sent_message w' \<Rightarrow>
          send_parts E discord_channel reference parts (sent_messages @ [sent_message]) w')"

definition forward_to_discord ::
  "'d client \<Rightarrow> channel \<Rightarrow> string \<Rightarrow> string option \<Rightarrow> message_id option \<Rightarrow> 'd world
     \<Rightarrow> (message_id list, 'd world) outcome" where
  "forward_to_discord E discord_channel text image_file reference w =
     (let message_parts = split_message E text in
      if image_file \<noteq> None \<and> image_file \<noteq> Some [] then
        (case message_parts of
           [] \<Rightarrow> Raise IndexError w
         | part # parts \<Rightarrow>
             (case do_send E discord_channel part image_file reference w of
                Raise e w' \<Rightarrow> Raise e w'
              | Return sent_message w' \<Rightarrow>
                  send_parts E discord_channel reference parts [sent_message] w'))
      else send_parts E discord_channel reference message_parts [] w)"


section \<open>The bridge: new messages\<close>

definition get_matching_forwarders :: "Config \<Rightarrow> channel_id \<Rightarrow> ForwarderConfig list" where
  "get_matching_forwarders config channel =
     filter (\<lambda>forwarder_config. channel = tg_channel_id forwarder_config) (telegram_forwarders config)"

text \<open>The list comprehension \<^verbatim>\<open>[tag for tag in tags if tag["name"].lower() in hashtags]\<close>.\<close>

definition matching_tags :: "(string \<Rightarrow> string) \<Rightarrow> tag_rule list \<Rightarrow> string list \<Rightarrow> tag_rule list" where
  "matching_tags lower tags message_forward_hashtags =
     filter (\<lambda>tag. lower (tag_name tag) \<in> set message_forward_hashtags) tags"

definition tag_override :: "tag_rule \<Rightarrow> bool" where
  "tag_override tag = (case override_mention_everyone tag of None \<Rightarrow> False | Some b \<Rightarrow> b)"

text \<open>
  Lines 236 to 271 of \<^verbatim>\<open>_handle_new_message\<close>: the routing decision of one forwarder.
  The local variable \<^verbatim>\<open>message_forward_hashtags\<close> is \<^verbatim>\<open>None\<close> while it is unbound; it is a
  local of the whole function, so it keeps its value from one iteration of the loop over
  the forwarders to the next. The result is (\<^verbatim>\<open>should_forward_message\<close>,
  \<^verbatim>\<open>mention_everyone\<close>, \<^verbatim>\<open>message_forward_hashtags\<close>).
\<close>

definition allow_decision ::
  "'d client \<Rightarrow> message \<Rightarrow> ForwarderConfig \<Rightarrow> string list option \<Rightarrow> bool \<times> bool \<times> string list option" where
  "allow_decision E event forwarder message_forward_hashtags =
     (let should_forward_message = forward_everything forwarder;
          mention = mention_everyone forwarder in
      if \<not> should_forward_message \<or> mention_override forwarder \<noteq> [] then
        (let hashtags = get_message_forward_hashtags E event;
             matching_forward_hashtags =
               (if hashtags \<noteq> [] \<and> forward_hashtags forwarder \<noteq> []
                then matching_tags (str_lower E) (forward_hashtags forwarder) hashtags else [])
         in if length matching_forward_hashtags > 0
            then (True, list_ex tag_override matching_forward_hashtags, Some hashtags)
            else (should_forward_message, mention, Some hashtags))
      else (should_forward_message, mention, message_forward_hashtags))"

definition routing_decision ::
  "'d client \<Rightarrow> message \<Rightarrow> ForwarderConfig \<Rightarrow> string list option \<Rightarrow> bool \<times> bool \<times> string list option" where
  "routing_decision E event forwarder message_forward_hashtags =
     (case allow_decision E event forwarder message_forward_hashtags of
        (should_forward_message, mention, hashtags_var) \<Rightarrow>
          if excluded_hashtags forwarder \<noteq> [] then
            (let hashtags = get_message_forward_hashtags E event;
                 matching_forward_hashtags =
                   matching_tags (str_lower E) (excluded_hashtags forwarder) hashtags
             in (if length matching_forward_hashtags > 0 then False else should_forward_message,
                 mention, Some hashtags))
          else (should_forward_message, mention, hashtags_var))"

text \<open>Lines 291 to 299: media goes to \<^verbatim>\<open>handle_message_media\<close>, text to
  \<^verbatim>\<open>forward_to_discord\<close>.\<close>

definition deliver ::
  "'d client \<Rightarrow> message \<Rightarrow> channel \<Rightarrow> string \<Rightarrow> message_id option \<Rightarrow> 'd world
     \<Rightarrow> (message_id list, 'd world) outcome" where
  "deliver E event discord_channel text discord_reference w =
     (if media event then
        (let w1 = w\<lparr>trace := trace w @ [Media (ch_id discord_channel) (msg_id event) text discord_reference]\<rparr> in
         case handle_message_media E (dest w) event discord_channel text discord_reference of
           (Inl e, d') \<Rightarrow> Raise e (w1\<lparr>dest := d'\<rparr>)
         | (Inr sent_discord_messages, d') \<Rightarrow> Return sent_discord_messages (w1\<lparr>dest := d'\<rparr>))
      else forward_to_discord E discord_channel text None discord_reference w)"

text \<open>Lines 301 to 318: the mapping of the first sent message is saved; an empty result
  is saved as a missed message.\<close>

definition save_result :: "ForwarderConfig \<Rightarrow> message \<Rightarrow> message_id list \<Rightarrow> 'd world \<Rightarrow> 'd world" where
  "save_result forwarder event sent_discord_messages w =
     (case sent_discord_messages of
        main_sent_discord_message # _ \<Rightarrow>
          w\<lparr>history_manager :=
              save_mapping_data (history_manager w) (forwarder_name forwarder) (msg_id event)
                main_sent_discord_message\<rparr>
      | [] \<Rightarrow>
          w\<lparr>history_manager :=
              save_missed_message (history_manager w) (forwarder_name forwarder) (msg_id event)
                (discord_channel_id forwarder)\<rparr>)"

text \<open>Lines 287 to 289: the reference is \<^verbatim>\<open>None\<close> unless \<^verbatim>\<open>event.message.reply_to_msg_id\<close>
  is truthy (neither \<^verbatim>\<open>None\<close> nor 0). When it is, the handler calls
  \<^verbatim>\<open>fetch_discord_reference(event, forwarder.forwarder_name, discord_channel)\<close>: three
  positional arguments for a function that \<^verbatim>\<open>discord_handler.py\<close> declares with the two
  parameters \<^verbatim>\<open>(event, discord_channel)\<close>. Python raises TypeError at the call, before
  the body of the function runs.\<close>

definition resolve_reference ::
  "'d client \<Rightarrow> message \<Rightarrow> ForwarderConfig \<Rightarrow> channel \<Rightarrow> 'd world \<Rightarrow> error + message_id option" where
  "resolve_reference E event forwarder discord_channel w =
     (if reply_to_msg_id event \<noteq> None \<and> reply_to_msg_id event \<noteq> Some 0
      then Inl TypeError
      else Inr None)"

text \<open>The body of the loop \<^verbatim>\<open>for forwarder in matching_forwarders\<close> (lines 233 to 318).
  \<^verbatim>\<open>discord_channel.guild\<close> on a channel that was not found raises AttributeError, and
  reading \<^verbatim>\<open>message_forward_hashtags\<close> while it is unbound raises UnboundLocalError.\<close>

definition new_message_route ::
  "'d client \<Rightarrow> message \<Rightarrow> ForwarderConfig \<Rightarrow> string list option \<Rightarrow> 'd world
     \<Rightarrow> (string list option, 'd world) outcome" where
  "new_message_route E event forwarder message_forward_hashtags w =
     (case routing_decision E event forwarder message_forward_hashtags of
        (should_forward_message, mention, hashtags_var) \<Rightarrow>
          if \<not> should_forward_message then Return hashtags_var w
          else
     (case get_channel E (discord_channel_id forwarder) of
        None \<Rightarrow> Raise AttributeError w
      | Some discord_channel \<Rightarrow>
     (case hashtags_var of
        None \<Rightarrow> Raise UnboundLocalError w
      | Some hashtags \<Rightarrow>
          (let mention_roles = get_mention_roles (str_lower E) hashtags (mention_override forwarder)
                                 (built_in_roles E) (guild_roles discord_channel);
               text = process_message_text E event forwarder mention mention_roles
           in
     (case resolve_reference E event forwarder discord_channel w of
        Inl e \<Rightarrow> Raise e w
      | Inr discord_reference \<Rightarrow>
     (case deliver E event discord_channel text discord_reference w of
        Raise e w' \<Rightarrow> Raise e w'
      | Return sent_discord_messages w' \<Rightarrow>
          Return hashtags_var (save_result forwarder event sent_discord_messages w')))))))"

fun new_message_loop ::
  "'d client \<Rightarrow> message \<Rightarrow> ForwarderConfig list \<Rightarrow> string list option \<Rightarrow> 'd world
     \<Rightarrow> (unit, 'd world) outcome" where
  "new_message_loop E event [] message_forward_hashtags w = Return () w"
| "new_message_loop E event (forwarder # forwarders) message_forward_hashtags w =
     (case new_message_route E event forwarder message_forward_hashtags w of
        Raise e w' \<Rightarrow> Raise e w'
      | Return hashtags_var w' \<Rightarrow> new_message_loop E event forwarders hashtags_var w')"

definition handle_new_message ::
  "'d client \<Rightarrow> Config \<Rightarrow> message \<Rightarrow> 'd world \<Rightarrow> (unit, 'd world) outcome" where
  "handle_new_message E config event w =
     (let matching_forwarders = get_matching_forwarders config (peer_channel_id event) in
      if length matching_forwarders < 1 then Return () w
      else new_message_loop E event matching_forwarders None w)"

section \<open>The bridge: edited and deleted messages\<close>

text \<open>How one iteration of a loop ends: \<^verbatim>\<open>continue\<close> (or the end of the body) goes on with
  the next element, \<^verbatim>\<open>return\<close> leaves the handler.\<close>

datatype flow = Continue | Stop

text \<open>The body of the loop of \<^verbatim>\<open>_handle_edit_message\<close> (lines 116 to 155). The
  \<^verbatim>\<open>except\<close> clauses catch NotFound, Forbidden and HTTPException, and each of them returns
  from the handler.\<close>

definition edit_route ::
  "'d client \<Rightarrow> message \<Rightarrow> ForwarderConfig \<Rightarrow> 'd world \<Rightarrow> (flow, 'd world) outcome" where
  "edit_route E event forwarder w =
     (case get_discord_message_id (history_manager w) (forwarder_name forwarder) (msg_id event) of
        None \<Rightarrow> Return Continue w
      | Some discord_message_id \<Rightarrow>
     (case get_channel E (discord_channel_id forwarder) of
        None \<Rightarrow> Return Continue w
      | Some discord_channel \<Rightarrow>
     (case fetch_message E (dest w) discord_channel discord_message_id of
        Inl e \<Rightarrow> if is_http_exception e then Return Stop w else Raise e w
      | Inr None \<Rightarrow> Return Continue w
      | Inr (Some discord_message) \<Rightarrow>
          (let w1 = w\<lparr>trace := trace w @ [Edit (ch_id discord_channel) discord_message (message_text event)]\<rparr> in
           case edit_message E (dest w) discord_channel discord_message (message_text event) of
             (None, d') \<Rightarrow> Return Continue (w1\<lparr>dest := d'\<rparr>)
           | (Some e, d') \<Rightarrow>
               if is_http_exception e then Return Stop (w1\<lparr>dest := d'\<rparr>)
               else Raise e (w1\<lparr>dest := d'\<rparr>)))))"

fun edit_loop ::
  "'d client \<Rightarrow> message \<Rightarrow> ForwarderConfig list \<Rightarrow> 'd world \<Rightarrow> (unit, 'd world) outcome" where
  "edit_loop E event [] w = Return () w"
| "edit_loop E event (forwarder # forwarders) w =
     (case edit_route E event forwarder w of
        Raise e w' \<Rightarrow> Raise e w'
      | Return Stop w' \<Rightarrow> Return () w'
      | Return Continue w' \<Rightarrow> edit_loop E event forwarders w')"

text \<open>\<^verbatim>\<open>_handle_edit_message\<close>; the event's message may be \<^verbatim>\<open>None\<close>.\<close>

definition handle_edit_message ::
  "'d client \<Rightarrow> Config \<Rightarrow> message option \<Rightarrow> 'd world \<Rightarrow> (unit, 'd world) outcome" where
  "handle_edit_message E config event w =
     (case event of
        None \<Rightarrow> Return () w
      | Some m \<Rightarrow>
          (let matching_forwarders = get_matching_forwarders config (peer_channel_id m) in
           if length matching_forwarders < 1 then Return () w
           else edit_loop E m matching_forwarders w))"

text \<open>A \<^verbatim>\<open>MessageDeleted\<close> event: \<^verbatim>\<open>event.deleted_ids\<close> and
  \<^verbatim>\<open>event.original_update.channel_id\<close>.\<close>

record deleted_event =
  deleted_ids :: "message_id list"
  update_channel_id :: channel_id

text \<open>The body of the inner loop of \<^verbatim>\<open>_handle_deleted_message\<close> (lines 177 to 213). The
  first \<^verbatim>\<open>try\<close> catches NotFound only; the second catches NotFound, Forbidden and
  HTTPException. Nothing here writes to the history store.\<close>

definition delete_one ::
  "'d client \<Rightarrow> ForwarderConfig \<Rightarrow> message_id \<Rightarrow> 'd world \<Rightarrow> (flow, 'd world) outcome" where
  "delete_one E forwarder deleted_id w =
     (case get_discord_message_id (history_manager w) (forwarder_name forwarder) deleted_id of
        None \<Rightarrow> Return Continue w
      | Some discord_message_id \<Rightarrow>
     (case get_channel E (discord_channel_id forwarder) of
        None \<Rightarrow> Return Stop w
      | Some discord_channel \<Rightarrow>
     (case fetch_message E (dest w) discord_channel discord_message_id of
        Inl e \<Rightarrow> if e = NotFound then Return Stop w else Raise e w
      | Inr None \<Rightarrow> Raise AttributeError w
      | Inr (Some discord_message) \<Rightarrow>
          (let w1 = w\<lparr>trace := trace w @ [Delete (ch_id discord_channel) discord_message]\<rparr> in
           case delete_message E (dest w) discord_channel discord_message of
             (None, d') \<Rightarrow> Return Continue (w1\<lparr>dest := d'\<rparr>)
           | (Some e, d') \<Rightarrow>
               if is_http_exception e then Return Stop (w1\<lparr>dest := d'\<rparr>)
               else Raise e (w1\<lparr>dest := d'\<rparr>)))))"

fun delete_ids_loop ::
  "'d client \<Rightarrow> ForwarderConfig \<Rightarrow> message_id list \<Rightarrow> 'd world \<Rightarrow> (flow, 'd world) outcome" where
  "delete_ids_loop E forwarder [] w = Return Continue w"
| "delete_ids_loop E forwarder (deleted_id # ids) w =
     (case delete_one E forwarder deleted_id w of
        Raise e w' \<Rightarrow> Raise e w'
      | Return Stop w' \<Rightarrow> Return Stop w'
      | Return Continue w' \<Rightarrow> delete_ids_loop E forwarder ids w')"

fun delete_loop ::
  "'d client \<Rightarrow> message_id list \<Rightarrow> ForwarderConfig list \<Rightarrow> 'd world \<Rightarrow> (unit, 'd world) outcome" where
  "delete_loop E ids [] w = Return () w"
| "delete_loop E ids (forwarder # forwarders) w =
     (case delete_ids_loop E forwarder ids w of
        Raise e w' \<Rightarrow> Raise e w'
      | Return Stop w' \<Rightarrow> Return () w'
      | Return Continue w' \<Rightarrow> delete_loop E ids forwarders w')"

definition handle_deleted_message ::
  "'d client \<Rightarrow> Config \<Rightarrow> deleted_event \<Rightarrow> 'd world \<Rightarrow> (unit, 'd world) outcome" where
  "handle_deleted_message E config event w =
     (let matching_forwarders = get_matching_forwarders config (update_channel_id event) in
      if length matching_forwarders < 1 then Return () w
      else delete_loop E (deleted_ids event) matching_forwarders w)"

section \<open>The bridge: recovery of missed messages\<close>

text \<open>
  What one pass of the loop of \<^verbatim>\<open>on_restored_connectivity\<close> reads from outside: the flags
  \<^verbatim>\<open>application.internet_connected\<close> and \<^verbatim>\<open>telegram.is_healthy\<close>, read once; the flag
  \<^verbatim>\<open>discord.is_healthy\<close>, read once for every fetched message (\<open>discord_is_healthy k\<close> is
  its value at the read number \<open>k\<close> of the pass); the result of
  \<^verbatim>\<open>history_manager.fetch_messages_after\<close>, in the order that call returns the messages;
  and whether \<^verbatim>\<open>telegram_client.get_input_entity\<close> raises.
\<close>

record tick =
  internet_connected :: bool
  telegram_is_healthy :: bool
  discord_is_healthy :: "nat \<Rightarrow> bool"
  fetch_messages_after :: "message_id \<Rightarrow> channel_id \<Rightarrow> error + message list"
  get_input_entity :: "channel_id \<Rightarrow> error option"

text \<open>Modelled from the spec: \<^verbatim>\<open>Config.get_telegram_channel_by_forwarder_name\<close>, the source
  channel of the route of that name (route names are unique); \<^verbatim>\<open>None\<close> when no route has
  the name.\<close>

definition get_telegram_channel_by_forwarder_name :: "Config \<Rightarrow> string \<Rightarrow> channel_id option" where
  "get_telegram_channel_by_forwarder_name config name =
     map_option tg_channel_id (find (\<lambda>f. forwarder_name f = name) (telegram_forwarders config))"

text \<open>The loop \<^verbatim>\<open>for fetched_message in fetched_messages\<close> (lines 350 to 368); \<open>k\<close> counts
  the reads of the Discord health flag. A message met while the flag is \<^verbatim>\<open>False\<close> is
  logged as queued and skipped by \<^verbatim>\<open>continue\<close>.\<close>

fun replay ::
  "'d client \<Rightarrow> Config \<Rightarrow> tick \<Rightarrow> channel_id \<Rightarrow> message list \<Rightarrow> nat \<Rightarrow> 'd world
     \<Rightarrow> (nat, 'd world) outcome" where
  "replay E config T channel [] k w = Return k w"
| "replay E config T channel (fetched_message # fetched_messages) k w =
     (case get_input_entity T channel of
        Some e \<Rightarrow> Raise e w
      | None \<Rightarrow>
          if \<not> discord_is_healthy T k then
            replay E config T channel fetched_messages (Suc k)
              (w\<lparr>trace := trace w @ [Log_queueing (msg_id fetched_message)]\<rparr>)
          else
            (case handle_new_message E config fetched_message
                    (w\<lparr>trace := trace w @ [Sleep (recoverer_delay config),
                                            Log_forwarding_recovered (msg_id fetched_message)]\<rparr>) of
               Raise e w' \<Rightarrow> Raise e w'
             | Return u w' \<Rightarrow> replay E config T channel fetched_messages (Suc k) w'))"

text \<open>The loop \<^verbatim>\<open>for last_message in last_messages\<close> (lines 339 to 368).\<close>

fun recover_loop ::
  "'d client \<Rightarrow> Config \<Rightarrow> tick \<Rightarrow> (string \<times> message_id) list \<Rightarrow> nat \<Rightarrow> 'd world
     \<Rightarrow> (nat, 'd world) outcome" where
  "recover_loop E config T [] k w = Return k w"
| "recover_loop E config T ((name, last_tg_message_id) # last_messages) k w =
     (case get_telegram_channel_by_forwarder_name config name of
        None \<Rightarrow> recover_loop E config T last_messages k w
      | Some channel \<Rightarrow>
          if channel = 0 then recover_loop E config T last_messages k w
          else
            (case fetch_messages_after T last_tg_message_id channel of
               Inl e \<Rightarrow> Raise e w
             | Inr fetched_messages \<Rightarrow>
                 (case replay E config T channel fetched_messages k w of
                    Raise e w' \<Rightarrow> Raise e w'
                  | Return k' w' \<Rightarrow> recover_loop E config T last_messages k' w')))"

text \<open>The \<^verbatim>\<open>try\<close> block (lines 334 to 372): \<^verbatim>\<open>except Exception\<close> logs and goes on.\<close>

definition try_recover :: "'d client \<Rightarrow> Config \<Rightarrow> tick \<Rightarrow> 'd world \<Rightarrow> (unit, 'd world) outcome" where
  "try_recover E config T w =
     (case recover_loop E config T (get_last_messages_for_all_forwarders (history_manager w)) 0 w of
        Raise exception w' \<Rightarrow> Return () (w'\<lparr>trace := trace w' @ [Log_failed_fetch exception]\<rparr>)
      | Return k w' \<Rightarrow> Return () w')"

text \<open>The body of \<^verbatim>\<open>while True\<close> (lines 331 to 376).\<close>

definition loop_body :: "'d client \<Rightarrow> Config \<Rightarrow> tick \<Rightarrow> 'd world \<Rightarrow> (unit, 'd world) outcome" where
  "loop_body E config T w =
     (case (if internet_connected T \<and> telegram_is_healthy T then try_recover E config T w
            else Return () w) of
        Raise e w' \<Rightarrow> Raise e w'
      | Return u w' \<Rightarrow> Return () (w'\<lparr>trace := trace w' @ [Sleep (healthcheck_interval config)]\<rparr>))"

text \<open>
  \<^verbatim>\<open>on_restored_connectivity\<close> never returns. The model runs it on the inputs of finitely
  many passes: it is still \<open>Running\<close> when the inputs are used up, and \<open>Terminated\<close> when
  an exception left the loop body.
\<close>

datatype 's run = Running 's | Terminated error 's

fun on_restored_connectivity ::
  "'d client \<Rightarrow> Config \<Rightarrow> tick list \<Rightarrow> 'd world \<Rightarrow> 'd world run" where
  "on_restored_connectivity E config [] w = Running w"
| "on_restored_connectivity E config (T # Ts) w =
     (case loop_body E config T w of
        Raise e w' \<Rightarrow> Terminated e w'
      | Return u w' \<Rightarrow> on_restored_connectivity E config Ts w')"

section \<open>Example collaborators\<close>

text \<open>
  Concrete collaborators on which the theorems below are evaluated. The Discord side is
  the list of the ids of the messages that exist there: a send creates the next id,
  channel 403 forbids sending, and fetching an id that does not exist is NotFound.
  Hashtags are the words of the text that start with \<open>#\<close>, as they are written; a text
  longer than eight characters is split in two parts. \<open>ascii_lower\<close> folds the letters A
  to Z, as \<^verbatim>\<open>str.lower\<close> does on text that is ASCII, and all the text of the examples is.
  The lookup of \<^verbatim>\<open>utils\<close> returns the first mapping of the source message id.
\<close>

definition lower_char :: "char \<Rightarrow> char" where
  "lower_char c =
     (let n = (of_char c :: nat) in if 65 \<le> n \<and> n \<le> 90 then char_of (n + 32) else c)"

definition ascii_lower :: "string \<Rightarrow> string" where
  "ascii_lower s = map lower_char s"

definition example_lookup :: "history \<Rightarrow> message_id option \<Rightarrow> message_id option" where
  "example_lookup h reply_id =
     (case reply_id of
        None \<Rightarrow> None
      | Some i \<Rightarrow> map_option snd (find (\<lambda>kv. snd (fst kv) = i) (mappings h)))"

fun text_words :: "string \<Rightarrow> string list" where
  "text_words [] = [[]]"
| "text_words (c # cs) =
     (if c = CHR '' '' then [] # text_words cs
      else (case text_words cs of [] \<Rightarrow> [[c]] | w # ws \<Rightarrow> (c # w) # ws))"

definition example_hashtags :: "message \<Rightarrow> string list" where
  "example_hashtags m =
     filter (\<lambda>w. case w of [] \<Rightarrow> False | c # _ \<Rightarrow> c = CHR ''#'') (text_words (message_text m))"

definition example_split :: "string \<Rightarrow> string list" where
  "example_split s = (if length s \<le> 8 then [s] else [take 8 s, drop 8 s])"

definition example_channel :: "channel_id \<Rightarrow> channel option" where
  "example_channel c =
     (if c = 10 \<or> c = 20 \<or> c = 403 then Some \<lparr>ch_id = c, guild_roles = []\<rparr> else None)"

definition example_send ::
  "message_id list \<Rightarrow> channel \<Rightarrow> string \<Rightarrow> string option \<Rightarrow> message_id option
     \<Rightarrow> (error + message_id) \<times> message_id list" where
  "example_send d c part file reference =
     (if ch_id c = 403 then (Inl Forbidden, d)
      else (Inr (1000 + int (length d)), d @ [1000 + int (length d)]))"

definition example_client :: "message_id list client" where
  "example_client =
     \<lparr>get_message_forward_hashtags = example_hashtags,
      process_message_text = (\<lambda>m f mention roles. message_text m),
      split_message = example_split,
      handle_message_media = (\<lambda>d m c t r. (Inr [], d)),
      built_in_roles = [''everyone'', ''here''],
      get_channel = example_channel,
      send = example_send,
      fetch_message = (\<lambda>d c i. if i \<in> set d then Inr (Some i) else Inl NotFound),
      edit_message = (\<lambda>d c i t. (None, d)),
      delete_message = (\<lambda>d c i. (None, removeAll i d)),
      channel_history = (\<lambda>d c i. Inr d),
      str_lower = ascii_lower,
      utils_get_discord_message_id = example_lookup\<rparr>"

definition route :: "string \<Rightarrow> channel_id \<Rightarrow> channel_id \<Rightarrow> bool \<Rightarrow> ForwarderConfig" where
  "route name source destination everything =
     \<lparr>forwarder_name = name, tg_channel_id = source, discord_channel_id = destination,
      forward_everything = everything, mention_everyone = False, forward_hashtags = [],
      excluded_hashtags = [], mention_override = []\<rparr>"

definition tag :: "string \<Rightarrow> tag_rule" where
  "tag name = \<lparr>tag_name = name, override_mention_everyone = None\<rparr>"

definition text_message :: "message_id \<Rightarrow> channel_id \<Rightarrow> string \<Rightarrow> message" where
  "text_message i c s =
     \<lparr>msg_id = i, peer_channel_id = c, message_text = s, reply_to_msg_id = None, media = False\<rparr>"

definition config_of :: "ForwarderConfig list \<Rightarrow> Config" where
  "config_of fs = \<lparr>telegram_forwarders = fs, recoverer_delay = 1, healthcheck_interval = 60\<rparr>"

definition world_of ::
  "message_id list \<Rightarrow> ((string \<times> message_id) \<times> message_id) list \<Rightarrow> message_id list world" where
  "world_of d ms = \<lparr>dest = d, history_manager = \<lparr>mappings = ms, missed = []\<rparr>, trace = []\<rparr>"

text \<open>Routes, messages and passes of the recovery loop used in the examples. The route
  \<open>news_route\<close> forwards what is tagged \<open>#news\<close> and denies what is tagged \<open>#draft\<close>;
  \<open>blocked_route\<close> leads to the channel that forbids sending.\<close>

definition news_route :: ForwarderConfig where
  "news_route =
     (route ''news'' 1 10 False)\<lparr>forward_hashtags := [tag ''#News''],
                                 excluded_hashtags := [tag ''#Draft'']\<rparr>"


definition second_route :: ForwarderConfig where
  "second_route = (route ''second'' 1 20 False)\<lparr>forward_hashtags := [tag ''#News'']\<rparr>"


definition example_tick :: "(nat \<Rightarrow> bool) \<Rightarrow> message list \<Rightarrow> tick" where
  "example_tick health source_messages =
     \<lparr>internet_connected = True, telegram_is_healthy = True, discord_is_healthy = health,
      fetch_messages_after = (\<lambda>last c. Inr (filter (\<lambda>m. last < msg_id m) source_messages)),
      get_input_entity = (\<lambda>c. None)\<rparr>"

section \<open>Reading the effects\<close>

text \<open>The reply reference carried by a delivery effect, and the ids of the recovered
  messages handed to \<^verbatim>\<open>_handle_new_message\<close>, in the order of the trace.\<close>

fun carries :: "message_id option \<Rightarrow> effect \<Rightarrow> bool" where
  "carries reference (Send c t f r) = (r = reference)"
| "carries reference (Media c i t r) = (r = reference)"
| "carries reference _ = False"

fun is_delivery :: "effect \<Rightarrow> bool" where
  "is_delivery (Send c t f r) = True"
| "is_delivery (Media c i t r) = True"
| "is_delivery _ = False"

fun forwarded_ids :: "effect list \<Rightarrow> message_id list" where
  "forwarded_ids [] = []"
| "forwarded_ids (Log_forwarding_recovered i # es) = i # forwarded_ids es"
| "forwarded_ids (e # es) = forwarded_ids es"




section \<open>What a delivery does to the trace and to the history store\<close>

text \<open>Every function of the delivery path only appends to the trace, every effect it
  appends carries the reference it was given, and none of them touches the history
  store.\<close>

lemma do_send_trace:
  "\<exists>tr. trace (state_of (do_send E c p f r w)) = trace w @ tr \<and> list_all (carries r) tr"
  by (auto simp: do_send_def Let_def split: prod.splits sum.splits)

lemma do_send_history:
  "history_manager (state_of (do_send E c p f r w)) = history_manager w"
  by (auto simp: do_send_def Let_def split: prod.splits sum.splits)

lemma send_parts_trace:
  "\<exists>tr. trace (state_of (send_parts E c r parts sent w)) = trace w @ tr \<and> list_all (carries r) tr"
proof (induction parts arbitrary: sent w)
  case Nil
  then show ?case by simp
next
  case (Cons p parts)
  obtain tr1 where t1: "trace (state_of (do_send E c p None r w)) = trace w @ tr1" "list_all (carries r) tr1"
    using do_send_trace by blast
  show ?case
  proof (cases "do_send E c p None r w")
    case (Raise e w')
    with t1 show ?thesis by auto
  next
    case (Return i w')
    obtain tr2 where "trace (state_of (send_parts E c r parts (sent @ [i]) w')) = trace w' @ tr2"
        "list_all (carries r) tr2"
      using Cons.IH by blast
    with t1 Return show ?thesis by auto
  qed
qed

lemma send_parts_history:
  "history_manager (state_of (send_parts E c r parts sent w)) = history_manager w"
proof (induction parts arbitrary: sent w)
  case Nil
  then show ?case by simp
next
  case (Cons p parts)
  show ?case
  proof (cases "do_send E c p None r w")
    case (Raise e w')
    with do_send_history [of E c p None r w] show ?thesis by simp
  next
    case (Return i w')
    with do_send_history [of E c p None r w] Cons.IH [of "sent @ [i]" w'] show ?thesis by simp
  qed
qed

lemma forward_to_discord_trace:
  "\<exists>tr. trace (state_of (forward_to_discord E c t f r w)) = trace w @ tr \<and> list_all (carries r) tr"
proof (cases "f \<noteq> None \<and> f \<noteq> Some []")
  case False
  then show ?thesis using send_parts_trace [of E c r "split_message E t" "[]" w]
    by (auto simp: forward_to_discord_def)
next
  case True
  show ?thesis
  proof (cases "split_message E t")
    case Nil
    with True show ?thesis by (auto simp: forward_to_discord_def)
  next
    case (Cons p parts)
    obtain tr1 where t1: "trace (state_of (do_send E c p f r w)) = trace w @ tr1" "list_all (carries r) tr1"
      using do_send_trace by blast
    show ?thesis
    proof (cases "do_send E c p f r w")
      case (Raise e w')
      with t1 True Cons show ?thesis by (auto simp: forward_to_discord_def)
    next
      case (Return i w')
      obtain tr2 where "trace (state_of (send_parts E c r parts [i] w')) = trace w' @ tr2"
        "list_all (carries r) tr2"
        using send_parts_trace by blast
      with t1 True Cons Return show ?thesis by (auto simp: forward_to_discord_def)
    qed
  qed
qed

lemma forward_to_discord_history:
  "history_manager (state_of (forward_to_discord E c t f r w)) = history_manager w"
proof (cases "f \<noteq> None \<and> f \<noteq> Some []")
  case False
  then show ?thesis using send_parts_history [of E c r "split_message E t" "[]" w]
    by (auto simp: forward_to_discord_def)
next
  case True
  show ?thesis
  proof (cases "split_message E t")
    case Nil
    with True show ?thesis by (auto simp: forward_to_discord_def)
  next
    case (Cons p parts)
    show ?thesis
    proof (cases "do_send E c p f r w")
      case (Raise e w')
      with do_send_history [of E c p f r w] True Cons show ?thesis
        by (auto simp: forward_to_discord_def)
    next
      case (Return i w')
      with do_send_history [of E c p f r w] send_parts_history [of E c r parts "[i]" w'] True Cons
      show ?thesis by (auto simp: forward_to_discord_def)
    qed
  qed
qed

lemma deliver_trace:
  "\<exists>tr. trace (state_of (deliver E ev c t r w)) = trace w @ tr \<and> list_all (carries r) tr"
  using forward_to_discord_trace [of E c t None r w]
  by (auto simp: deliver_def Let_def split: prod.splits sum.splits)

lemma deliver_history:
  "history_manager (state_of (deliver E ev c t r w)) = history_manager w"
  using forward_to_discord_history [of E c t None r w]
  by (auto simp: deliver_def Let_def split: prod.splits sum.splits)

lemma carries_is_delivery: "list_all (carries r) tr \<Longrightarrow> list_all is_delivery tr"
proof (induction tr)
  case Nil
  then show ?case by simp
next
  case (Cons e tr)
  then show ?case by (cases e) auto
qed

lemma save_result_trace: "trace (save_result f ev sent w) = trace w"
  by (cases sent) (simp_all add: save_result_def)

lemma save_result_dest: "dest (save_result f ev sent w) = dest w"
  by (cases sent) (simp_all add: save_result_def)

lemma save_result_mappings:
  "k \<noteq> (forwarder_name f, msg_id ev) \<Longrightarrow>
   map_of (mappings (history_manager (save_result f ev sent w))) k = map_of (mappings (history_manager w)) k"
  by (cases sent) (simp_all add: save_result_def save_mapping_data_def save_missed_message_def update_conv')

lemma route_trace_carries:
  assumes "get_channel E (discord_channel_id f) = Some c"
  shows "\<exists>tr. trace (state_of (new_message_route E ev f mfh w)) = trace w @ tr \<and>
           list_all (carries (case resolve_reference E ev f c w of Inl e \<Rightarrow> None | Inr r \<Rightarrow> r)) tr"
proof (cases "routing_decision E ev f mfh")
  case (fields should mention hv)
  show ?thesis
  proof (cases "should \<and> hv \<noteq> None \<and> (\<exists>r. resolve_reference E ev f c w = Inr r)")
    case False
    then have "trace (state_of (new_message_route E ev f mfh w)) = trace w"
      using assms fields by (auto simp: new_message_route_def split: option.splits sum.splits)
    then show ?thesis by simp
  next
    case True
    then obtain hs r where hv: "hv = Some hs" and r: "resolve_reference E ev f c w = Inr r" and should
      by auto
    define t where "t = process_message_text E ev f mention
        (get_mention_roles (str_lower E) hs (mention_override f) (built_in_roles E) (guild_roles c))"
    obtain tr where tr: "trace (state_of (deliver E ev c t r w)) = trace w @ tr" "list_all (carries r) tr"
      using deliver_trace by blast
    have "trace (state_of (new_message_route E ev f mfh w)) = trace (state_of (deliver E ev c t r w))"
      using assms fields hv r \<open>should\<close>
      by (cases "deliver E ev c t r w")
         (simp_all add: new_message_route_def t_def Let_def save_result_trace)
    with tr r show ?thesis by simp
  qed
qed

lemma route_trace:
  "\<exists>tr. trace (state_of (new_message_route E ev f mfh w)) = trace w @ tr \<and> list_all is_delivery tr"
proof (cases "get_channel E (discord_channel_id f)")
  case None
  then have "trace (state_of (new_message_route E ev f mfh w)) = trace w"
    by (auto simp: new_message_route_def split: prod.splits)
  then show ?thesis by simp
next
  case (Some c)
  from route_trace_carries [OF Some] carries_is_delivery show ?thesis by blast
qed

lemma route_mappings:
  assumes "k \<noteq> (forwarder_name f, msg_id ev)"
  shows "map_of (mappings (history_manager (state_of (new_message_route E ev f mfh w)))) k =
         map_of (mappings (history_manager w)) k"
proof (cases "routing_decision E ev f mfh")
  case (fields should mention hv)
  show ?thesis
  proof (cases "should \<and> hv \<noteq> None \<and> (\<exists>c r. get_channel E (discord_channel_id f) = Some c \<and> resolve_reference E ev f c w = Inr r)")
    case False
    then have "history_manager (state_of (new_message_route E ev f mfh w)) = history_manager w"
      using fields by (auto simp: new_message_route_def split: option.splits sum.splits)
    then show ?thesis by simp
  next
    case True
    then obtain hs c r where hv: "hv = Some hs" and c: "get_channel E (discord_channel_id f) = Some c"
      and r: "resolve_reference E ev f c w = Inr r" and should
      by auto
    define t where "t = process_message_text E ev f mention
        (get_mention_roles (str_lower E) hs (mention_override f) (built_in_roles E) (guild_roles c))"
    show ?thesis
    proof (cases "deliver E ev c t r w")
      case (Raise e w')
      with deliver_history [of E ev c t r w] c fields hv r \<open>should\<close> show ?thesis
        by (simp add: new_message_route_def t_def Let_def)
    next
      case (Return sent w')
      with deliver_history [of E ev c t r w] c fields hv r \<open>should\<close> assms show ?thesis
        by (simp add: new_message_route_def t_def Let_def save_result_mappings)
    qed
  qed
qed

lemma loop_trace:
  "\<exists>tr. trace (state_of (new_message_loop E ev fs mfh w)) = trace w @ tr \<and> list_all is_delivery tr"
proof (induction fs arbitrary: mfh w)
  case Nil
  then show ?case by simp
next
  case (Cons f fs)
  obtain tr1 where t1: "trace (state_of (new_message_route E ev f mfh w)) = trace w @ tr1"
      "list_all is_delivery tr1"
    using route_trace by blast
  show ?case
  proof (cases "new_message_route E ev f mfh w")
    case (Raise e w')
    with t1 show ?thesis by auto
  next
    case (Return hv w')
    obtain tr2 where "trace (state_of (new_message_loop E ev fs hv w')) = trace w' @ tr2"
        "list_all is_delivery tr2"
      using Cons.IH by blast
    with t1 Return show ?thesis by auto
  qed
qed

lemma loop_mappings:
  assumes "snd k \<noteq> msg_id ev"
  shows "map_of (mappings (history_manager (state_of (new_message_loop E ev fs mfh w)))) k =
         map_of (mappings (history_manager w)) k"
proof (induction fs arbitrary: mfh w)
  case Nil
  then show ?case by simp
next
  case (Cons f fs)
  have k: "k \<noteq> (forwarder_name f, msg_id ev)" using assms by auto
  show ?case
  proof (cases "new_message_route E ev f mfh w")
    case (Raise e w')
    with route_mappings [OF k, of E mfh w] show ?thesis by simp
  next
    case (Return hv w')
    with route_mappings [OF k, of E mfh w] Cons.IH [of hv w'] show ?thesis by simp
  qed
qed

lemma handle_new_message_trace:
  "\<exists>tr. trace (state_of (handle_new_message E config ev w)) = trace w @ tr \<and> list_all is_delivery tr"
  using loop_trace [of E ev "get_matching_forwarders config (peer_channel_id ev)" None w]
  by (auto simp: handle_new_message_def Let_def)

lemma handle_new_message_mappings:
  "snd k \<noteq> msg_id ev \<Longrightarrow>
   map_of (mappings (history_manager (state_of (handle_new_message E config ev w)))) k =
   map_of (mappings (history_manager w)) k"
  using loop_mappings [of k ev E "get_matching_forwarders config (peer_channel_id ev)" None w]
  by (auto simp: handle_new_message_def Let_def)

section \<open>The replay of fetched messages\<close>

lemma forwarded_ids_append: "forwarded_ids (xs @ ys) = forwarded_ids xs @ forwarded_ids ys"
  by (induction xs rule: forwarded_ids.induct) simp_all

lemma forwarded_ids_delivery: "list_all is_delivery tr \<Longrightarrow> forwarded_ids tr = []"
proof (induction tr)
  case Nil
  then show ?case by simp
next
  case (Cons e tr)
  then show ?case by (cases e) simp_all
qed

lemma replay_order:
  "\<exists>tr. trace (state_of (replay E config T channel fetched k w)) = trace w @ tr
        \<and> subseq (forwarded_ids tr) (map msg_id fetched)
        \<and> (\<forall>key. map_of (mappings (history_manager (state_of (replay E config T channel fetched k w)))) key
                    \<noteq> map_of (mappings (history_manager w)) key
                  \<longrightarrow> snd key \<in> set (forwarded_ids tr))"
proof (induction fetched arbitrary: k w)
  case Nil
  then show ?case by simp
next
  case (Cons m ms)
  show ?case
  proof (cases "get_input_entity T channel")
    case (Some e)
    then show ?thesis by simp
  next
    case None
    show ?thesis
    proof (cases "discord_is_healthy T k")
      case False
      define w1 where "w1 = w\<lparr>trace := trace w @ [Log_queueing (msg_id m)]\<rparr>"
      obtain tr where tr: "trace (state_of (replay E config T channel ms (Suc k) w1)) = trace w1 @ tr"
        "subseq (forwarded_ids tr) (map msg_id ms)"
        "\<forall>key. map_of (mappings (history_manager (state_of (replay E config T channel ms (Suc k) w1)))) key
                    \<noteq> map_of (mappings (history_manager w1)) key
                  \<longrightarrow> snd key \<in> set (forwarded_ids tr)"
        using Cons.IH by blast
      have eq: "replay E config T channel (m # ms) k w = replay E config T channel ms (Suc k) w1"
        using None False by (simp add: w1_def)
      have "trace (state_of (replay E config T channel (m # ms) k w)) = trace w @ (Log_queueing (msg_id m) # tr)"
        using tr(1) eq by (simp add: w1_def)
      moreover have "subseq (forwarded_ids (Log_queueing (msg_id m) # tr)) (map msg_id (m # ms))"
        using tr(2) by (simp add: list_emb_Cons)
      moreover have "\<forall>key. map_of (mappings (history_manager (state_of (replay E config T channel (m # ms) k w)))) key
                    \<noteq> map_of (mappings (history_manager w)) key
                  \<longrightarrow> snd key \<in> set (forwarded_ids (Log_queueing (msg_id m) # tr))"
        using tr(3) eq by (simp add: w1_def)
      ultimately show ?thesis by blast
    next
      case True
      define w1 where "w1 = w\<lparr>trace := trace w @ [Sleep (recoverer_delay config),
                                            Log_forwarding_recovered (msg_id m)]\<rparr>"
      obtain tr1 where tr1: "trace (state_of (handle_new_message E config m w1)) = trace w1 @ tr1"
        "list_all is_delivery tr1"
        using handle_new_message_trace by blast
      have map1: "\<And>key. snd key \<noteq> msg_id m \<Longrightarrow>
          map_of (mappings (history_manager (state_of (handle_new_message E config m w1)))) key
            = map_of (mappings (history_manager w)) key"
        using handle_new_message_mappings [of _ m E config w1] by (simp add: w1_def)
      let ?pre = "[Sleep (recoverer_delay config), Log_forwarding_recovered (msg_id m)] @ tr1"
      have pre: "forwarded_ids ?pre = [msg_id m]"
        using tr1(2) by (simp add: forwarded_ids_append forwarded_ids_delivery)
      show ?thesis
      proof (cases "handle_new_message E config m w1")
        case (Raise e w')
        then have eq: "replay E config T channel (m # ms) k w = Raise e w'"
          using None True by (simp add: w1_def)
        have "trace (state_of (replay E config T channel (m # ms) k w)) = trace w @ ?pre"
          using tr1(1) Raise eq by (simp add: w1_def)
        moreover have "subseq (forwarded_ids ?pre) (map msg_id (m # ms))"
          unfolding pre by simp
        moreover have "\<forall>key. map_of (mappings (history_manager (state_of (replay E config T channel (m # ms) k w)))) key
                    \<noteq> map_of (mappings (history_manager w)) key
                  \<longrightarrow> snd key \<in> set (forwarded_ids ?pre)"
        proof (intro allI impI)
          fix key
          assume ne: "map_of (mappings (history_manager (state_of (replay E config T channel (m # ms) k w)))) key
                    \<noteq> map_of (mappings (history_manager w)) key"
          have "snd key = msg_id m"
          proof (rule ccontr)
            assume "snd key \<noteq> msg_id m"
            from map1 [OF this] Raise have "map_of (mappings (history_manager w')) key
              = map_of (mappings (history_manager w)) key" by simp
            with ne eq show False by simp
          qed
          then show "snd key \<in> set (forwarded_ids ?pre)" using pre by simp
        qed
        ultimately show ?thesis by blast
      next
        case (Return u w')
        then have eq: "replay E config T channel (m # ms) k w = replay E config T channel ms (Suc k) w'"
          using None True by (simp add: w1_def)
        obtain tr where tr: "trace (state_of (replay E config T channel ms (Suc k) w')) = trace w' @ tr"
          "subseq (forwarded_ids tr) (map msg_id ms)"
          "\<forall>key. map_of (mappings (history_manager (state_of (replay E config T channel ms (Suc k) w')))) key
                    \<noteq> map_of (mappings (history_manager w')) key
                  \<longrightarrow> snd key \<in> set (forwarded_ids tr)"
          using Cons.IH by blast
        have "trace (state_of (replay E config T channel (m # ms) k w)) = trace w @ (?pre @ tr)"
          using tr1(1) tr(1) Return eq by (simp add: w1_def)
        moreover have "subseq (forwarded_ids (?pre @ tr)) (map msg_id (m # ms))"
          using tr(2) pre by (simp add: forwarded_ids_append)
        moreover have "\<forall>key. map_of (mappings (history_manager (state_of (replay E config T channel (m # ms) k w)))) key
                    \<noteq> map_of (mappings (history_manager w)) key
                  \<longrightarrow> snd key \<in> set (forwarded_ids (?pre @ tr))"
        proof (intro allI impI)
          fix key
          assume ne: "map_of (mappings (history_manager (state_of (replay E config T channel (m # ms) k w)))) key
                    \<noteq> map_of (mappings (history_manager w)) key"
          show "snd key \<in> set (forwarded_ids (?pre @ tr))"
          proof (cases "snd key = msg_id m")
            case True
            then show ?thesis using pre by (simp add: forwarded_ids_append)
          next
            case False
            with map1 [of key] Return have same: "map_of (mappings (history_manager w')) key
              = map_of (mappings (history_manager w)) key" by simp
            have "map_of (mappings (history_manager (state_of (replay E config T channel ms (Suc k) w')))) key
                    \<noteq> map_of (mappings (history_manager w')) key"
              using ne unfolding eq same .
            with tr(3) have "snd key \<in> set (forwarded_ids tr)" by blast
            then show ?thesis by (simp add: forwarded_ids_append)
          qed
        qed
        ultimately show ?thesis by blast
      qed
    qed
  qed
qed

lemma replay_trace:
  "\<exists>tr. trace (state_of (replay E config T channel fetched k w)) = trace w @ tr"
  using replay_order [of E config T channel fetched k w] by blast

lemma recover_loop_trace:
  "\<exists>tr. trace (state_of (recover_loop E config T last_messages k w)) = trace w @ tr"
proof (induction last_messages arbitrary: k w)
  case Nil
  then show ?case by simp
next
  case (Cons last_message last_messages)
  obtain name last_id where lm: "last_message = (name, last_id)" by (cases last_message)
  show ?case
  proof (cases "get_telegram_channel_by_forwarder_name config name")
    case None
    with lm Cons.IH [of k w] show ?thesis by simp
  next
    case (Some channel)
    show ?thesis
    proof (cases "channel = 0")
      case True
      with lm Some Cons.IH [of k w] show ?thesis by simp
    next
      case False
      show ?thesis
      proof (cases "fetch_messages_after T last_id channel")
        case (Inl e)
        with lm Some False show ?thesis by simp
      next
        case (Inr fetched)
        obtain tr1 where t1: "trace (state_of (replay E config T channel fetched k w)) = trace w @ tr1"
          using replay_trace by blast
        show ?thesis
        proof (cases "replay E config T channel fetched k w")
          case (Raise e w')
          with lm Some False Inr t1 show ?thesis by simp
        next
          case (Return k' w')
          obtain tr2 where "trace (state_of (recover_loop E config T last_messages k' w')) = trace w' @ tr2"
            using Cons.IH by blast
          with lm Some False Inr t1 Return show ?thesis by simp
        qed
      qed
    qed
  qed
qed

lemma loop_body_returns:
  "\<exists>w' tr. loop_body E config T w = Return () w'
      \<and> trace w' = trace w @ tr @ [Sleep (healthcheck_interval config)]"
proof (cases "internet_connected T \<and> telegram_is_healthy T")
  case False
  then have "loop_body E config T w = Return () (w\<lparr>trace := trace w @ [Sleep (healthcheck_interval config)]\<rparr>)"
    by (auto simp: loop_body_def)
  then show ?thesis by simp
next
  case True
  let ?r = "recover_loop E config T (get_last_messages_for_all_forwarders (history_manager w)) 0 w"
  obtain tr where tr: "trace (state_of ?r) = trace w @ tr"
    using recover_loop_trace by blast
  show ?thesis
  proof (cases ?r)
    case (Raise e w')
    with tr True have "loop_body E config T w =
        Return () (w'\<lparr>trace := trace w @ (tr @ [Log_failed_fetch e]) @ [Sleep (healthcheck_interval config)]\<rparr>)"
      by (simp add: loop_body_def try_recover_def)
    then show ?thesis by (metis world.select_convs(3) world.surjective world.update_convs(3))
  next
    case (Return k' w')
    with tr True have "loop_body E config T w =
        Return () (w'\<lparr>trace := trace w @ tr @ [Sleep (healthcheck_interval config)]\<rparr>)"
      by (simp add: loop_body_def try_recover_def)
    then show ?thesis by (metis world.select_convs(3) world.surjective world.update_convs(3))
  qed
qed

lemma count_list_append: "count_list (xs @ ys) x = count_list xs x + count_list ys x"
  by (induction xs) simp_all

section \<open>Edits and deletions leave the history store alone\<close>






lemma subseq_set: "subseq xs ys \<Longrightarrow> set xs \<subseteq> set ys"
proof
  fix x
  assume "subseq xs ys" and "x \<in> set xs"
  then obtain y where "y \<in> set ys" and "x = y" by (rule list_emb_set)
  then show "x \<in> set ys" by simp
qed

lemma subseq_sorted_wrt: "subseq xs ys \<Longrightarrow> sorted_wrt P ys \<Longrightarrow> sorted_wrt P xs"
proof (induction rule: list_emb.induct)
  case (list_emb_Nil ys)
  then show ?case by simp
next
  case (list_emb_Cons xs ys y)
  then show ?case by simp
next
  case (list_emb_Cons2 x y xs ys)
  from list_emb_Cons2(2) have "set xs \<subseteq> set ys" by (rule subseq_set)
  with list_emb_Cons2 show ?case by auto
qed

section \<open>A mapping is written after a confirmed delivery\<close>

lemma deliver_prefix: "prefix (trace w) (trace (state_of (deliver E ev c t r w)))"
  using deliver_trace [of E ev c t r w] by (auto simp: prefix_def)










section \<open>The sends of a replay follow the fetched list\<close>







section \<open>The deletions only extend the trace\<close>






section \<open>Claims about new messages\<close>









text \<open>
  Claim C10: a route with \<^verbatim>\<open>forward_everything\<close> true, an empty mention override and an
  empty deny-list never assigns \<^verbatim>\<open>message_forward_hashtags\<close>. When such a route is the
  first that matches the channel of a new message and its destination channel is known
  to the Discord client, the handler raises UnboundLocalError at the call of
  \<^verbatim>\<open>get_mention_roles\<close>, with nothing sent and nothing saved.
\<close>

theorem unbound_hashtags_raise:
  assumes "get_matching_forwarders config (peer_channel_id event) = forwarder # rest"
    and "forward_everything forwarder"
    and "mention_override forwarder = []"
    and "excluded_hashtags forwarder = []"
    and "get_channel E (discord_channel_id forwarder) = Some discord_channel"
  shows "handle_new_message E config event w = Raise UnboundLocalError w"
proof -
  have "routing_decision E event forwarder None = (True, mention_everyone forwarder, None)"
    using assms(2-4) by (simp add: routing_decision_def allow_decision_def)
  then have "new_message_route E event forwarder None w = Raise UnboundLocalError w"
    using assms(5) by (simp add: new_message_route_def)
  then show ?thesis
    using assms(1) by (simp add: handle_new_message_def)
qed

theorem unbound_hashtags_raise_witness:
  "get_matching_forwarders (config_of [route ''all'' 1 10 True]) (peer_channel_id (text_message 5 1 ''hello''))
     = [route ''all'' 1 10 True]
   \<and> forward_everything (route ''all'' 1 10 True)
   \<and> mention_override (route ''all'' 1 10 True) = []
   \<and> excluded_hashtags (route ''all'' 1 10 True) = []
   \<and> get_channel example_client (discord_channel_id (route ''all'' 1 10 True))
       = Some \<lparr>ch_id = 10, guild_roles = []\<rparr>
   \<and> handle_new_message example_client (config_of [route ''all'' 1 10 True]) (text_message 5 1 ''hello'')
       (world_of [] []) = Raise UnboundLocalError (world_of [] [])"
proof -
  have m: "get_matching_forwarders (config_of [route ''all'' 1 10 True]) (peer_channel_id (text_message 5 1 ''hello''))
     = [route ''all'' 1 10 True]"
    by (simp add: get_matching_forwarders_def config_of_def route_def text_message_def)
  have c: "get_channel example_client (discord_channel_id (route ''all'' 1 10 True))
       = Some \<lparr>ch_id = 10, guild_roles = []\<rparr>"
    by (simp add: example_client_def example_channel_def route_def)
  have r: "forward_everything (route ''all'' 1 10 True)" "mention_override (route ''all'' 1 10 True) = []"
    "excluded_hashtags (route ''all'' 1 10 True) = []"
    by (simp_all add: route_def)
  from unbound_hashtags_raise [OF m r c] m r c show ?thesis by (intro conjI)
qed

section \<open>Claims about edited and deleted messages\<close>

text \<open>
  Claim C4 says that a destination-side failure on one matching route leaves the other
  matching routes of the event to be processed. In \<^verbatim>\<open>_handle_edit_message\<close> and
  \<^verbatim>\<open>_handle_deleted_message\<close> the \<^verbatim>\<open>except\<close> clauses end with \<^verbatim>\<open>return\<close>, where the other
  skipping branches of the same loops use \<^verbatim>\<open>continue\<close>. The message 5 is mapped to 900
  under \<open>news\<close> and to 1000 under \<open>second\<close>; 900 no longer exists at the destination.
  With both routes configured, the not-found of the first ends the handler and the
  message 1000 of the second is neither edited nor deleted; with the second route alone
  it is.
\<close>

theorem failure_on_one_route_stops_the_others:
  "handle_edit_message example_client (config_of [news_route, second_route])
       (Some (text_message 5 1 ''edited''))
       (world_of [1000] [((''news'', 5), 900), ((''second'', 5), 1000)])
     = Return () (world_of [1000] [((''news'', 5), 900), ((''second'', 5), 1000)])
   \<and> handle_edit_message example_client (config_of [second_route])
       (Some (text_message 5 1 ''edited''))
       (world_of [1000] [((''news'', 5), 900), ((''second'', 5), 1000)])
     = Return ()
         \<lparr>dest = [1000],
          history_manager = \<lparr>mappings = [((''news'', 5), 900), ((''second'', 5), 1000)], missed = []\<rparr>,
          trace = [Edit 20 1000 ''edited'']\<rparr>
   \<and> handle_deleted_message example_client (config_of [news_route, second_route])
       \<lparr>deleted_ids = [5], update_channel_id = 1\<rparr>
       (world_of [1000] [((''news'', 5), 900), ((''second'', 5), 1000)])
     = Return () (world_of [1000] [((''news'', 5), 900), ((''second'', 5), 1000)])
   \<and> handle_deleted_message example_client (config_of [second_route])
       \<lparr>deleted_ids = [5], update_channel_id = 1\<rparr>
       (world_of [1000] [((''news'', 5), 900), ((''second'', 5), 1000)])
     = Return ()
         \<lparr>dest = [],
          history_manager = \<lparr>mappings = [((''news'', 5), 900), ((''second'', 5), 1000)], missed = []\<rparr>,
          trace = [Delete 20 1000]\<rparr>"
  by code_simp




section \<open>Claims about the recovery loop\<close>




text \<open>
  Claim C8 says that a message skipped because the Discord health flag was false is
  replayed on a later pass. The loop logs the message as queued and goes on with
  \<^verbatim>\<open>continue\<close>; nothing queues it. The cursor of \<open>news\<close> is 100 and the messages 101 and
  102 are fetched. In the first pass the flag is false at 101 and true at 102: 101 is
  skipped and 102 is delivered and mapped. In the second pass the flag is true, the
  cursor is 102, and the fetch after 102 returns nothing: 101 is never sent.
\<close>

theorem skipped_message_is_not_replayed:
  "on_restored_connectivity example_client (config_of [news_route])
       [example_tick (\<lambda>k. k \<noteq> 0) [text_message 101 1 ''#news a'', text_message 102 1 ''#news b''],
        example_tick (\<lambda>k. True) [text_message 101 1 ''#news a'', text_message 102 1 ''#news b'']]
       (world_of [900] [((''news'', 100), 900)])
     = Running
         \<lparr>dest = [900, 1001],
          history_manager =
            \<lparr>mappings = [((''news'', 100), 900), ((''news'', 102), 1001)], missed = []\<rparr>,
          trace = [Log_queueing 101, Sleep 1, Log_forwarding_recovered 102,
                   Send 10 ''#news b'' None None, Sleep 60, Sleep 60]\<rparr>"
  by code_simp

text \<open>
  Claim C9: whatever the passes of the loop of \<^verbatim>\<open>on_restored_connectivity\<close> read and
  whatever is raised while the missed messages are fetched and replayed, no exception
  leaves the loop body: the loop is still running after any number of passes, and every
  pass has slept for the health-check interval.
\<close>

theorem recovery_loop_keeps_running:
  "\<exists>w'. on_restored_connectivity E config Ts w = Running w'
      \<and> count_list (trace w) (Sleep (healthcheck_interval config)) + length Ts
          \<le> count_list (trace w') (Sleep (healthcheck_interval config))"
proof (induction Ts arbitrary: w)
  case Nil
  then show ?case by simp
next
  case (Cons T Ts)
  obtain w1 tr where b: "loop_body E config T w = Return () w1"
      "trace w1 = trace w @ tr @ [Sleep (healthcheck_interval config)]"
    using loop_body_returns by blast
  obtain w' where r: "on_restored_connectivity E config Ts w1 = Running w'"
      "count_list (trace w1) (Sleep (healthcheck_interval config)) + length Ts
          \<le> count_list (trace w') (Sleep (healthcheck_interval config))"
    using Cons.IH by blast
  have "count_list (trace w) (Sleep (healthcheck_interval config)) + 1
          \<le> count_list (trace w1) (Sleep (healthcheck_interval config))"
    using b(2) by (simp add: count_list_append)
  with b(1) r show ?case by simp
qed

theorem recovery_loop_keeps_running_witness:
  "on_restored_connectivity example_client (config_of [news_route])
       [(example_tick (\<lambda>k. True) [])\<lparr>fetch_messages_after := (\<lambda>last c. Inl OtherError)\<rparr>,
        example_tick (\<lambda>k. True) [text_message 101 1 ''#news a'']]
       (world_of [900] [((''news'', 100), 900)])
     = Running
         \<lparr>dest = [900, 1001],
          history_manager =
            \<lparr>mappings = [((''news'', 100), 900), ((''news'', 101), 1001)], missed = []\<rparr>,
          trace = [Log_failed_fetch OtherError, Sleep 60,
                   Sleep 1, Log_forwarding_recovered 101, Send 10 ''#news a'' None None, Sleep 60]\<rparr>
   \<and> (\<exists>w'. on_restored_connectivity example_client (config_of [news_route])
              [(example_tick (\<lambda>k. True) [])\<lparr>fetch_messages_after := (\<lambda>last c. Inl OtherError)\<rparr>,
               example_tick (\<lambda>k. True) [text_message 101 1 ''#news a'']]
              (world_of [900] [((''news'', 100), 900)])
            = Running w'
          \<and> count_list (trace (world_of [900] [((''news'', 100), 900)]))
                (Sleep (healthcheck_interval (config_of [news_route])))
              + length [(example_tick (\<lambda>k. True) [])\<lparr>fetch_messages_after := (\<lambda>last c. Inl OtherError)\<rparr>,
                        example_tick (\<lambda>k. True) [text_message 101 1 ''#news a'']]
            \<le> count_list (trace w') (Sleep (healthcheck_interval (config_of [news_route]))))"
proof -
  have run: "on_restored_connectivity example_client (config_of [news_route])
       [(example_tick (\<lambda>k. True) [])\<lparr>fetch_messages_after := (\<lambda>last c. Inl OtherError)\<rparr>,
        example_tick (\<lambda>k. True) [text_message 101 1 ''#news a'']]
       (world_of [900] [((''news'', 100), 900)])
     = Running
         \<lparr>dest = [900, 1001],
          history_manager =
            \<lparr>mappings = [((''news'', 100), 900), ((''news'', 101), 1001)], missed = []\<rparr>,
          trace = [Log_failed_fetch OtherError, Sleep 60,
                   Sleep 1, Log_forwarding_recovered 101, Send 10 ''#news a'' None None, Sleep 60]\<rparr>"
    by code_simp
  from run recovery_loop_keeps_running [of example_client "config_of [news_route]"
      "[(example_tick (\<lambda>k. True) [])\<lparr>fetch_messages_after := (\<lambda>last c. Inl OtherError)\<rparr>,
        example_tick (\<lambda>k. True) [text_message 101 1 ''#news a'']]"
      "world_of [900] [((''news'', 100), 900)]"]
  show ?thesis by (intro conjI)
qed

end
